theory Spec2Isabelle
  imports Main "HOL-Library.Sublist"
begin

section \<open>Strings and the display helpers\<close>

text \<open>
  A string is the list of its code units. \<^verbatim>\<open>toUpperCase\<close> is a built-in of the language,
  not a function of the sources: it maps code points by the Unicode tables and can
  lengthen a string (the sharp s becomes \<^verbatim>\<open>SS\<close>). Wherever the code calls it, it is the
  parameter \<open>up\<close>, and what a proof uses of it is an assumption of that proof.
  \<open>formatSportName\<close> applies it to the result of \<^verbatim>\<open>charAt\<close> only, a string of at most one
  unit, so the assumptions speak of such strings:

  \<^item> \<open>ascii_toUpperCase up\<close>: the empty string stays empty, and a single unit below 128
    follows the ASCII rule \<open>upper_ascii_unit\<close> (the letters \<^verbatim>\<open>a\<close> to \<^verbatim>\<open>z\<close>, units 97 to
    122, move to \<^verbatim>\<open>A\<close> to \<^verbatim>\<open>Z\<close>; any other unit below 128 has no upper case of its
    own).
  \<^item> \<open>settled_toUpperCase up\<close>: the empty string stays empty, and the upper case of a
    single unit is not empty and starts with a unit that is its own upper case.

  The sport identifiers and the fixed texts of the component are ASCII, so its strings
  are of type \<^typ>\<open>string\<close>. \<open>toUpperCase_ascii\<close> is the ASCII rule applied to every unit; it
  satisfies both assumptions and is what \<open>up\<close> is in the examples, which are ASCII.
\<close>

definition upper_ascii_unit :: "char \<Rightarrow> char" where
  "upper_ascii_unit c =
     (let n = (of_char c :: nat) in if 97 \<le> n \<and> n \<le> 122 then char_of (n - 32) else c)"

definition ascii_toUpperCase :: "(string \<Rightarrow> string) \<Rightarrow> bool" where
  "ascii_toUpperCase up =
     (up [] = [] \<and> (\<forall>c. (of_char c :: nat) < 128 \<longrightarrow> up [c] = [upper_ascii_unit c]))"

definition settled_toUpperCase :: "('u list \<Rightarrow> 'u list) \<Rightarrow> bool" where
  "settled_toUpperCase up =
     (up [] = [] \<and> (\<forall>c. up [c] \<noteq> [] \<and> up [hd (up [c])] = [hd (up [c])]))"

definition toUpperCase_ascii :: "string \<Rightarrow> string" where
  "toUpperCase_ascii s = map upper_ascii_unit s"

text \<open>\<^verbatim>\<open>s.charAt(i)\<close>: the one-unit string at index \<open>i\<close>, the empty string out of range.\<close>

definition charAt :: "'u list \<Rightarrow> nat \<Rightarrow> 'u list" where
  "charAt s i = (if i < length s then [s ! i] else [])"

text \<open>\<^verbatim>\<open>s.slice(start)\<close> for a start index that is not negative.\<close>

definition slice :: "'u list \<Rightarrow> nat \<Rightarrow> 'u list" where
  "slice s start = drop start s"

text \<open>\<^verbatim>\<open>xs.includes(x)\<close>: a left-to-right scan comparing with equality.\<close>

primrec "includes" :: "'a list \<Rightarrow> 'a \<Rightarrow> bool" where
  "includes [] x = False"
| "includes (y # ys) x = (if y = x then True else includes ys x)"

text \<open>
  \<^verbatim>\<open>return sport.charAt(0).toUpperCase() + sport.slice(1);\<close>
\<close>

definition formatSportName :: "('u list \<Rightarrow> 'u list) \<Rightarrow> 'u list \<Rightarrow> 'u list" where
  "formatSportName up sport = up (charAt sport 0) @ slice sport 1"

text \<open>The five icon components the switch returns, and the error it throws.\<close>

datatype icon = FaBaseballBall | FaBasketballBall | FaFootballBall | PiSoccerBall | PiTennisBall

datatype error = NoIconFound string

fun getMatchingSportsIcon :: "string \<Rightarrow> error + icon" where
  "getMatchingSportsIcon sport =
     (if sport = ''baseball'' then Inr FaBaseballBall
      else if sport = ''basketball'' then Inr FaBasketballBall
      else if sport = ''football'' then Inr FaFootballBall
      else if sport = ''soccer'' then Inr PiSoccerBall
      else if sport = ''tennis'' then Inr PiTennisBall
      else Inl (NoIconFound sport))"

text \<open>
  Modelled from the spec: the type \<^verbatim>\<open>Sport\<close> is declared in \<^verbatim>\<open>@/api/sports\<close>, which is not
  among the sources. The spec describes it as a fixed closed set of identifiers, the five
  below.
\<close>

definition knownSports :: "string list" where
  "knownSports = [''baseball'', ''basketball'', ''football'', ''soccer'', ''tennis'']"

section \<open>The derived list of sports that can still be added\<close>

text \<open>
  \<^verbatim>\<open>allSports.filter((sport) => !userSports.includes(sport))\<close>, a constant of the
  component's body: a function of the two query results, held in no state variable.
\<close>

definition availableSports :: "string list \<Rightarrow> string list \<Rightarrow> string list" where
  "availableSports allSports userSports =
     filter (\<lambda>sport. \<not> includes userSports sport) allSports"

section \<open>The mutation primitive, the cache and the notifications\<close>

text \<open>
  What the component reads from a \<^verbatim>\<open>useMutation\<close> result and what it does to it:
  \<open>isPending\<close> is the flag of the most recent dispatch, \<open>inFlight\<close> holds the variables of
  the requests that have not settled yet, in dispatch order, and \<open>calls\<close> logs every call
  of the mutation function (a server call). \<open>mutate\<close> dispatches; \<open>settle i\<close> is the
  \<open>i\<close>-th outstanding request resolving or rejecting, which clears the flag when that
  request is the most recent dispatch.
\<close>

record mutation =
  isPending :: bool
  inFlight :: "string list"
  calls :: "string list"

definition idle :: mutation where
  "idle = \<lparr>isPending = False, inFlight = [], calls = []\<rparr>"

definition mutate :: "string \<Rightarrow> mutation \<Rightarrow> mutation" where
  "mutate variables m =
     \<lparr>isPending = True, inFlight = inFlight m @ [variables], calls = calls m @ [variables]\<rparr>"

definition settle :: "nat \<Rightarrow> mutation \<Rightarrow> mutation" where
  "settle i m =
     m\<lparr>isPending := isPending m \<and> Suc i \<noteq> length (inFlight m),
       inFlight := take i (inFlight m) @ drop (Suc i) (inFlight m)\<rparr>"

text \<open>
  The two fixed error texts, \<^verbatim>\<open>Could not add sport\<close> and \<^verbatim>\<open>Could not delete sport\<close>, each
  followed by a dash and \<^verbatim>\<open>please try again.\<close>, and the notifications sent to the toast
  service.
\<close>

datatype error_text = CouldNotAddSport | CouldNotDeleteSport

datatype toast = ToastSuccess string | ToastError error_text

section \<open>The state of the component\<close>

text \<open>
  The query results \<open>allSports\<close> and \<open>userSports\<close> (the empty list until data arrives), the
  two mutations, the state variables of \<^verbatim>\<open>UserSportSection\<close> (\<open>sportToDelete\<close>,
  \<open>deletingPending\<close>) and of \<^verbatim>\<open>AddSportCard\<close> (\<open>open\<close>, \<open>selectedSport\<close> with the empty
  string for no choice, \<open>pendingSport\<close>), and the logs of the notifications and of the
  invalidated query keys. The component is modelled once both queries have loaded.
\<close>

record state =
  allSports :: "string list"
  userSports :: "string list"
  addSportMutation :: mutation
  deleteSportMutation :: mutation
  sportToDelete :: "string option"
  deletingPending :: bool
  "open" :: bool
  selectedSport :: string
  pendingSport :: "string option"
  toasts :: "toast list"
  invalidated :: "string list list"

definition init :: "string list \<Rightarrow> string list \<Rightarrow> state" where
  "init all user =
     \<lparr>allSports = all, userSports = user, addSportMutation = idle,
      deleteSportMutation = idle, sportToDelete = None, deletingPending = False,
      open = False, selectedSport = [], pendingSport = None, toasts = [],
      invalidated = []\<rparr>"

text \<open>
  A \<^verbatim>\<open>Sport | null\<close> used as a condition: \<^verbatim>\<open>null\<close> and the empty string are falsy.
\<close>

definition truthy :: "string option \<Rightarrow> bool" where
  "truthy v = (case v of None \<Rightarrow> False | Some s \<Rightarrow> s \<noteq> [])"

subsection \<open>AddSportCard\<close>

definition isMutating :: "state \<Rightarrow> bool" where
  "isMutating st = isPending (addSportMutation st)"

definition beginningAdd :: "state \<Rightarrow> bool" where
  "beginningAdd st = (truthy (pendingSport st) \<or> isMutating st)"

text \<open>The \<open>onAdd\<close> property: \<^verbatim>\<open>(sport) => addSportMutation.mutate(sport)\<close>.\<close>

definition onAdd :: "string \<Rightarrow> state \<Rightarrow> state" where
  "onAdd sport st = st\<lparr>addSportMutation := mutate sport (addSportMutation st)\<rparr>"

definition handleAdd :: "state \<Rightarrow> state" where
  "handleAdd st =
     (if selectedSport st \<noteq> [] \<and> \<not> isMutating st
      then (onAdd (selectedSport st) st)\<lparr>pendingSport := Some (selectedSport st)\<rparr>
      else st)"

text \<open>The effect of \<^verbatim>\<open>AddSportCard\<close>, run after a render.\<close>

definition addSportCard_effect :: "state \<Rightarrow> state" where
  "addSportCard_effect st =
     (if truthy (pendingSport st) \<and> \<not> isMutating st
         \<and> \<not> includes (availableSports (allSports st) (userSports st))
               (case pendingSport st of Some p \<Rightarrow> p | None \<Rightarrow> [])
      then st\<lparr>open := False, selectedSport := [], pendingSport := None\<rparr>
      else st)"

text \<open>The \<^verbatim>\<open>disabled\<close> attribute of the confirm button of the add dialog.\<close>

definition addButton_disabled :: "state \<Rightarrow> bool" where
  "addButton_disabled st = (selectedSport st = [] \<or> beginningAdd st)"

subsection \<open>UserSportSection\<close>

definition addSportMutation_onSuccess :: "(string \<Rightarrow> string) \<Rightarrow> string \<Rightarrow> state \<Rightarrow> state" where
  "addSportMutation_onSuccess up sport st =
     st\<lparr>invalidated := invalidated st @ [[''userSports'']],
        toasts := toasts st
          @ [ToastSuccess (formatSportName up sport @ '' was successfully added.'')]\<rparr>"

definition addSportMutation_onError :: "state \<Rightarrow> state" where
  "addSportMutation_onError st = st\<lparr>toasts := toasts st @ [ToastError CouldNotAddSport]\<rparr>"

definition deleteSportMutation_onSuccess :: "(string \<Rightarrow> string) \<Rightarrow> string \<Rightarrow> state \<Rightarrow> state" where
  "deleteSportMutation_onSuccess up sport st =
     st\<lparr>invalidated := invalidated st @ [[''userSports'']],
        toasts := toasts st
          @ [ToastSuccess (formatSportName up sport @ '' was successfully deleted.'')]\<rparr>"

definition deleteSportMutation_onError :: "state \<Rightarrow> state" where
  "deleteSportMutation_onError st =
     st\<lparr>toasts := toasts st @ [ToastError CouldNotDeleteSport]\<rparr>"

text \<open>The effect of \<^verbatim>\<open>UserSportSection\<close>, run after a render.\<close>

definition userSportSection_effect :: "state \<Rightarrow> state" where
  "userSportSection_effect st =
     (if truthy (sportToDelete st) \<and> deletingPending st
         \<and> \<not> isPending (deleteSportMutation st)
         \<and> \<not> includes (userSports st) (case sportToDelete st of Some d \<Rightarrow> d | None \<Rightarrow> [])
      then st\<lparr>sportToDelete := None, deletingPending := False\<rparr>
      else st)"

definition handleDelete :: "string \<Rightarrow> state \<Rightarrow> state" where
  "handleDelete sport st =
     st\<lparr>deletingPending := True,
        deleteSportMutation := mutate sport (deleteSportMutation st)\<rparr>"

definition isDeleting :: "state \<Rightarrow> bool" where
  "isDeleting st = deletingPending st"

text \<open>
  The remove button of the card of \<open>sport\<close>: its \<^verbatim>\<open>disabled\<close> attribute and its click
  handler.
\<close>

definition removeButton_disabled :: "state \<Rightarrow> string \<Rightarrow> bool" where
  "removeButton_disabled st sport = isDeleting st"

definition remove_onClick :: "string \<Rightarrow> state \<Rightarrow> state" where
  "remove_onClick sport st = st\<lparr>sportToDelete := Some sport\<rparr>"

text \<open>The confirmation dialog: \<^verbatim>\<open>onOpenChange\<close>, and the Cancel and Delete buttons.\<close>

definition dialog_onOpenChange :: "bool \<Rightarrow> state \<Rightarrow> state" where
  "dialog_onOpenChange opn st =
     (if \<not> opn then st\<lparr>sportToDelete := None, deletingPending := False\<rparr> else st)"

definition cancel_onClick :: "state \<Rightarrow> state" where
  "cancel_onClick st = st\<lparr>sportToDelete := None, deletingPending := False\<rparr>"

definition delete_onClick :: "state \<Rightarrow> state" where
  "delete_onClick st =
     (case sportToDelete st of
        None \<Rightarrow> st
      | Some d \<Rightarrow> if d \<noteq> [] then handleDelete d st else st)"

definition cancelButton_disabled :: "state \<Rightarrow> bool" where
  "cancelButton_disabled st = isDeleting st"

definition deleteButton_disabled :: "state \<Rightarrow> bool" where
  "deleteButton_disabled st = isDeleting st"

subsection \<open>Events\<close>

text \<open>
  What can happen to the rendered component: the user acts on a control, a dispatched
  request settles (\<open>True\<close> for resolved, \<open>False\<close> for rejected), or a query delivers
  fresh data. A control that is disabled or not rendered (the content of a closed dialog,
  the remove button of a sport that is not subscribed, an option that is not offered)
  does not call its handler. A handler runs to its end, then the two effects run, the
  child's first.
\<close>

datatype event =
    AddDialogOpenChange bool
  | SelectSport string
  | ClickAdd
  | AddSettled nat bool
  | ClickRemove string
  | DeleteDialogOpenChange bool
  | ClickCancel
  | ClickDelete
  | DeleteSettled nat bool
  | UserSportsFetched "string list"
  | AllSportsFetched "string list"

fun handle :: "(string \<Rightarrow> string) \<Rightarrow> event \<Rightarrow> state \<Rightarrow> state" where
  "handle up (AddDialogOpenChange b) st = st\<lparr>open := b\<rparr>"
| "handle up (SelectSport s) st =
     (if open st \<and> includes (availableSports (allSports st) (userSports st)) s
      then st\<lparr>selectedSport := s\<rparr> else st)"
| "handle up ClickAdd st =
     (if open st \<and> \<not> addButton_disabled st then handleAdd st else st)"
| "handle up (AddSettled i ok) st =
     (if i < length (inFlight (addSportMutation st))
      then let sport = inFlight (addSportMutation st) ! i;
               st' = st\<lparr>addSportMutation := settle i (addSportMutation st)\<rparr>
           in if ok then addSportMutation_onSuccess up sport st'
              else addSportMutation_onError st'
      else st)"
| "handle up (ClickRemove s) st =
     (if includes (userSports st) s \<and> \<not> removeButton_disabled st s
      then remove_onClick s st else st)"
| "handle up (DeleteDialogOpenChange b) st = dialog_onOpenChange b st"
| "handle up ClickCancel st =
     (if sportToDelete st \<noteq> None \<and> \<not> cancelButton_disabled st
      then cancel_onClick st else st)"
| "handle up ClickDelete st =
     (if sportToDelete st \<noteq> None \<and> \<not> deleteButton_disabled st
      then delete_onClick st else st)"
| "handle up (DeleteSettled i ok) st =
     (if i < length (inFlight (deleteSportMutation st))
      then let sport = inFlight (deleteSportMutation st) ! i;
               st' = st\<lparr>deleteSportMutation := settle i (deleteSportMutation st)\<rparr>
           in if ok then deleteSportMutation_onSuccess up sport st'
              else deleteSportMutation_onError st'
      else st)"
| "handle up (UserSportsFetched xs) st = st\<lparr>userSports := xs\<rparr>"
| "handle up (AllSportsFetched xs) st = st\<lparr>allSports := xs\<rparr>"

definition render_effects :: "state \<Rightarrow> state" where
  "render_effects st = userSportSection_effect (addSportCard_effect st)"

definition step :: "(string \<Rightarrow> string) \<Rightarrow> event \<Rightarrow> state \<Rightarrow> state" where
  "step up ev st = render_effects (handle up ev st)"

definition run :: "(string \<Rightarrow> string) \<Rightarrow> event list \<Rightarrow> state \<Rightarrow> state" where
  "run up evs st = fold (step up) evs st"

text \<open>
  The add mutation as the guard of \<open>handleAdd\<close> keeps it: at most one request is
  outstanding, the flag is set exactly while there is one, and \<open>pendingSport\<close> holds the
  sport of the outstanding request.
\<close>

definition add_inv :: "state \<Rightarrow> bool" where
  "add_inv st =
     (case inFlight (addSportMutation st) of
        [] \<Rightarrow> \<not> isPending (addSportMutation st)
      | [s] \<Rightarrow> isPending (addSportMutation st) \<and> pendingSport st = Some s \<and> s \<noteq> []
      | _ \<Rightarrow> False)"



subsection \<open>Scenarios\<close>

text \<open>
  States reached from a freshly loaded component with the catalogue of five sports and
  the subscription baseball, with \<open>toUpperCase_ascii\<close> for \<open>up\<close>: tennis chosen in the
  open add dialog; the add request for tennis dispatched; that request resolved and the
  subscription list fetched again, before the effects run; baseball marked for deletion;
  the deletion confirmed.
\<close>

definition tennis_chosen :: state where
  "tennis_chosen =
     run toUpperCase_ascii [AddDialogOpenChange True, SelectSport ''tennis'']
       (init knownSports [''baseball''])"

definition tennis_sent :: state where
  "tennis_sent =
     run toUpperCase_ascii [AddDialogOpenChange True, SelectSport ''tennis'', ClickAdd]
       (init knownSports [''baseball''])"

definition tennis_added :: state where
  "tennis_added =
     handle toUpperCase_ascii (UserSportsFetched [''baseball'', ''tennis''])
       (step toUpperCase_ascii (AddSettled 0 True) tennis_sent)"

definition baseball_marked :: state where
  "baseball_marked =
     run toUpperCase_ascii [ClickRemove ''baseball''] (init knownSports [''baseball''])"

definition baseball_sent :: state where
  "baseball_sent =
     run toUpperCase_ascii [ClickRemove ''baseball'', ClickDelete]
       (init knownSports [''baseball''])"


section \<open>Properties of the helpers\<close>

lemma includes_set: "includes xs x = (x \<in> set xs)"
  by (induction xs) auto

lemma upper_ascii_unit_idem: "upper_ascii_unit (upper_ascii_unit c) = upper_ascii_unit c"
  unfolding upper_ascii_unit_def Let_def by auto

lemma formatSportName_Nil: "formatSportName up [] = up []"
  by (simp add: formatSportName_def charAt_def slice_def)

lemma formatSportName_Cons: "formatSportName up (c # cs) = up [c] @ cs"
  by (simp add: formatSportName_def charAt_def slice_def)

lemma formatSportName_settled:
  assumes "settled_toUpperCase up"
  shows "formatSportName up (formatSportName up x) = formatSportName up x"
proof (cases x)
  case Nil
  with assms show ?thesis
    by (simp add: formatSportName_Nil settled_toUpperCase_def)
next
  case (Cons c cs)
  from assms have "up [c] \<noteq> []" and fixed: "up [hd (up [c])] = [hd (up [c])]"
    by (simp_all add: settled_toUpperCase_def)
  then obtain u us where u: "up [c] = u # us"
    by (cases "up [c]") auto
  with fixed have "up [u] = [u]" by simp
  with Cons u show ?thesis
    by (simp add: formatSportName_Cons)
qed

lemma toUpperCase_ascii_ascii: "ascii_toUpperCase toUpperCase_ascii"
  by (simp add: ascii_toUpperCase_def toUpperCase_ascii_def)

lemma toUpperCase_ascii_settled: "settled_toUpperCase toUpperCase_ascii"
  by (simp add: settled_toUpperCase_def toUpperCase_ascii_def upper_ascii_unit_idem)

lemma upper_ascii_unit_below:
  "(of_char c :: nat) < 128 \<Longrightarrow> (of_char (upper_ascii_unit c) :: nat) < 128"
  unfolding upper_ascii_unit_def Let_def by auto

lemma formatSportName_tennis: "formatSportName toUpperCase_ascii ''tennis'' = ''Tennis''"
  by code_simp

lemma availableSports_filter:
  "availableSports all user = filter (\<lambda>sport. sport \<notin> set user) all"
  by (simp add: availableSports_def includes_set)

section \<open>Properties of the component\<close>

lemmas handler_defs =
  isMutating_def beginningAdd_def onAdd_def handleAdd_def addButton_disabled_def
  addSportMutation_onSuccess_def addSportMutation_onError_def
  deleteSportMutation_onSuccess_def deleteSportMutation_onError_def
  handleDelete_def isDeleting_def removeButton_disabled_def remove_onClick_def
  dialog_onOpenChange_def cancel_onClick_def delete_onClick_def
  cancelButton_disabled_def deleteButton_disabled_def

lemma render_effects_add [simp]:
  "addSportMutation (render_effects st) = addSportMutation st"
  by (simp add: render_effects_def addSportCard_effect_def userSportSection_effect_def)

lemma render_effects_delete [simp]:
  "deleteSportMutation (render_effects st) = deleteSportMutation st"
  by (simp add: render_effects_def addSportCard_effect_def userSportSection_effect_def)

lemma render_effects_queries [simp]:
  "userSports (render_effects st) = userSports st"
  "allSports (render_effects st) = allSports st"
  "toasts (render_effects st) = toasts st"
  "invalidated (render_effects st) = invalidated st"
  by (simp_all add: render_effects_def addSportCard_effect_def userSportSection_effect_def)

lemma run_Nil [simp]: "run up [] st = st"
  by (simp add: run_def)

lemma run_snoc [simp]: "run up (evs @ [ev]) st = step up ev (run up evs st)"
  by (simp add: run_def)

lemma add_inv_init: "add_inv (init all user)"
  by (simp add: add_inv_def init_def idle_def)

lemma add_inv_effects: "add_inv st \<Longrightarrow> add_inv (render_effects st)"
  by (auto simp: add_inv_def render_effects_def addSportCard_effect_def
      userSportSection_effect_def isMutating_def truthy_def split: list.splits option.splits)

lemma add_inv_settled:
  assumes "add_inv st"
  shows "add_inv (handle up (AddSettled i ok) st)"
proof (cases "i < length (inFlight (addSportMutation st))")
  case False
  with assms show ?thesis by simp
next
  case True
  with assms obtain s where s: "inFlight (addSportMutation st) = [s]"
    by (auto simp: add_inv_def split: list.splits)
  with True have "i = 0" by simp
  with s show ?thesis
    by (simp add: add_inv_def settle_def addSportMutation_onSuccess_def
        addSportMutation_onError_def Let_def)
qed

lemma add_inv_handle: "add_inv st \<Longrightarrow> add_inv (handle up ev st)"
proof (cases ev)
  case (AddSettled i ok)
  assume "add_inv st"
  with AddSettled show ?thesis by (simp only: add_inv_settled)
qed (auto simp: add_inv_def handler_defs mutate_def truthy_def Let_def
      split: list.splits option.splits if_splits)

lemma add_inv_run: "add_inv (run up evs (init all user))"
  by (induction evs rule: rev_induct)
    (simp_all add: add_inv_init step_def add_inv_effects add_inv_handle)

lemma effects_pending:
  "pendingSport h = Some s \<Longrightarrow> s \<noteq> [] \<Longrightarrow>
     (if \<not> isMutating h \<and> s \<notin> set (availableSports (allSports h) (userSports h))
      then \<not> open (render_effects h) \<and> selectedSport (render_effects h) = []
           \<and> pendingSport (render_effects h) = None
      else open (render_effects h) = open h
           \<and> selectedSport (render_effects h) = selectedSport h
           \<and> pendingSport (render_effects h) = Some s)"
  by (simp add: render_effects_def addSportCard_effect_def userSportSection_effect_def
      truthy_def includes_set)

lemma effects_not_pending:
  "pendingSport h = None \<Longrightarrow>
     open (render_effects h) = open h \<and> selectedSport (render_effects h) = selectedSport h
     \<and> pendingSport (render_effects h) = None"
  by (simp add: render_effects_def addSportCard_effect_def userSportSection_effect_def
      truthy_def)

lemma handle_resolved:
  assumes "add_inv st" and "inFlight (addSportMutation st) = [s]"
  shows "handle up (AddSettled 0 True) st =
           st\<lparr>addSportMutation := (addSportMutation st)\<lparr>isPending := False, inFlight := []\<rparr>,
              invalidated := invalidated st @ [[''userSports'']],
              toasts := toasts st
                @ [ToastSuccess (formatSportName up s @ '' was successfully added.'')]\<rparr>"
  using assms by (simp add: Let_def settle_def addSportMutation_onSuccess_def)

lemma resolved_while_available:
  assumes "add_inv st" and "inFlight (addSportMutation st) = [s]"
    and "s \<in> set (availableSports (allSports st) (userSports st))"
  shows "open (step up (AddSettled 0 True) st) = open st
         \<and> selectedSport (step up (AddSettled 0 True) st) = selectedSport st
         \<and> pendingSport (step up (AddSettled 0 True) st) = Some s"
proof -
  let ?h = "handle up (AddSettled 0 True) st"
  from assms have p: "pendingSport st = Some s" "s \<noteq> []"
    by (simp_all add: add_inv_def)
  have h: "pendingSport ?h = Some s" "open ?h = open st" "selectedSport ?h = selectedSport st"
    "allSports ?h = allSports st" "userSports ?h = userSports st"
    using p unfolding handle_resolved [OF assms(1,2)] by simp_all
  from effects_pending [OF h(1) p(2)] assms(3) h show ?thesis
    by (simp add: step_def)
qed

lemma resolved_and_fetched:
  assumes "add_inv st" and "inFlight (addSportMutation st) = [s]" and "s \<in> set xs"
  shows "\<not> open (run up [AddSettled 0 True, UserSportsFetched xs] st)
         \<and> selectedSport (run up [AddSettled 0 True, UserSportsFetched xs] st) = []
         \<and> pendingSport (run up [AddSettled 0 True, UserSportsFetched xs] st) = None
         \<and> toasts (run up [AddSettled 0 True, UserSportsFetched xs] st)
             = toasts st @ [ToastSuccess (formatSportName up s @ '' was successfully added.'')]
         \<and> invalidated (run up [AddSettled 0 True, UserSportsFetched xs] st)
             = invalidated st @ [[''userSports'']]"
proof -
  let ?h = "handle up (AddSettled 0 True) st"
  let ?st1 = "step up (AddSettled 0 True) st"
  let ?h2 = "handle up (UserSportsFetched xs) ?st1"
  from assms have p: "pendingSport st = Some s" "s \<noteq> []"
    by (simp_all add: add_inv_def)
  have h: "pendingSport ?h = Some s" "\<not> isMutating ?h"
    "toasts ?h = toasts st @ [ToastSuccess (formatSportName up s @ '' was successfully added.'')]"
    "invalidated ?h = invalidated st @ [[''userSports'']]"
    using p unfolding handle_resolved [OF assms(1,2)] by (simp_all add: isMutating_def)
  have logs: "toasts (step up (UserSportsFetched xs) ?st1) = toasts ?h"
    "invalidated (step up (UserSportsFetched xs) ?st1) = invalidated ?h"
    by (simp_all add: step_def)
  have m: "\<not> isMutating ?h2"
    using h(2) by (simp add: isMutating_def step_def)
  have av: "s \<notin> set (availableSports (allSports ?h2) (userSports ?h2))"
    using assms(3) by (simp add: availableSports_filter)
  have closed: "\<not> open (render_effects ?h2) \<and> selectedSport (render_effects ?h2) = []
                \<and> pendingSport (render_effects ?h2) = None"
  proof (cases "pendingSport ?st1")
    case None
    with effects_pending [OF h(1) p(2)] have "\<not> open ?st1 \<and> selectedSport ?st1 = []"
      by (simp add: step_def split: if_splits)
    with None effects_not_pending [of ?h2] show ?thesis by simp
  next
    case (Some q)
    with effects_pending [OF h(1) p(2)] have "q = s"
      by (simp add: step_def split: if_splits)
    with Some have "pendingSport ?h2 = Some s" by simp
    from effects_pending [OF this p(2)] m av show ?thesis by simp
  qed
  from closed logs h(3,4) show ?thesis
    by (simp add: run_def step_def)
qed

lemma run_Cons [simp]: "run up (ev # evs) st = run up evs (step up ev st)"
  by (simp add: run_def)






text \<open>The scenario states, evaluated.\<close>

lemma tennis_chosen_eq:
  "tennis_chosen = \<lparr>allSports = knownSports, userSports = [''baseball''],
      addSportMutation = idle, deleteSportMutation = idle, sportToDelete = None,
      deletingPending = False,
      open = True, selectedSport = ''tennis'', pendingSport = None, toasts = [],
      invalidated = []\<rparr>"
  by code_simp

lemma tennis_sent_eq:
  "tennis_sent = \<lparr>allSports = knownSports, userSports = [''baseball''],
      addSportMutation = \<lparr>isPending = True, inFlight = [''tennis''], calls = [''tennis'']\<rparr>,
      deleteSportMutation = idle, sportToDelete = None, deletingPending = False,
      open = True, selectedSport = ''tennis'', pendingSport = Some ''tennis'', toasts = [],
      invalidated = []\<rparr>"
  by code_simp

lemma tennis_added_eq:
  "tennis_added = \<lparr>allSports = knownSports, userSports = [''baseball'', ''tennis''],
      addSportMutation = \<lparr>isPending = False, inFlight = [], calls = [''tennis'']\<rparr>,
      deleteSportMutation = idle, sportToDelete = None, deletingPending = False,
      open = True, selectedSport = ''tennis'', pendingSport = Some ''tennis'',
      toasts = [ToastSuccess ''Tennis was successfully added.''],
      invalidated = [[''userSports'']]\<rparr>"
  by code_simp

lemma baseball_marked_eq:
  "baseball_marked = \<lparr>allSports = knownSports, userSports = [''baseball''],
      addSportMutation = idle, deleteSportMutation = idle,
      sportToDelete = Some ''baseball'', deletingPending = False,
      open = False, selectedSport = [], pendingSport = None, toasts = [],
      invalidated = []\<rparr>"
  by code_simp

lemma baseball_sent_eq:
  "baseball_sent = \<lparr>allSports = knownSports, userSports = [''baseball''],
      addSportMutation = idle,
      deleteSportMutation =
        \<lparr>isPending = True, inFlight = [''baseball''], calls = [''baseball'']\<rparr>,
      sportToDelete = Some ''baseball'', deletingPending = True,
      open = False, selectedSport = [], pendingSport = None, toasts = [],
      invalidated = []\<rparr>"
  by code_simp

lemma effects_delete_markers:
  "sportToDelete st = None \<Longrightarrow> \<not> deletingPending st \<Longrightarrow>
     sportToDelete (render_effects st) = None \<and> \<not> deletingPending (render_effects st)"
  by (simp add: render_effects_def addSportCard_effect_def userSportSection_effect_def truthy_def)

section \<open>The claims\<close>

text \<open>
  C1: for every pair of lists, the elements of \<open>availableSports\<close> are exactly the elements
  of \<open>allSports\<close> that do not occur in \<open>userSports\<close>. The value is a function of the two
  lists, kept in no state variable, so it follows them: once a fetch has delivered a new
  subscription list or a new catalogue, it is the difference of the lists then held. With
  the catalogue baseball, basketball, football and the subscription baseball, it is
  basketball, football.
\<close>

theorem availableSports_is_difference:
  "set (availableSports all user) = set all - set user
   \<and> set (availableSports (allSports (step up (UserSportsFetched xs) st))
            (userSports (step up (UserSportsFetched xs) st)))
       = set (allSports st) - set xs
   \<and> set (availableSports (allSports (step up (AllSportsFetched xs) st))
            (userSports (step up (AllSportsFetched xs) st)))
       = set xs - set (userSports st)
   \<and> availableSports [''baseball'', ''basketball'', ''football''] [''baseball'']
       = [''basketball'', ''football'']"
  by (auto simp: availableSports_filter step_def)

text \<open>
  C2, evaluated on the code: the add request for tennis is dispatched and rejects. One
  error notification is sent, the dialog stays open and \<open>pendingSport\<close> stays set; the
  in-flight flag is clear, yet the confirm button is still disabled, because
  \<open>beginningAdd\<close> holds as long as \<open>pendingSport\<close> is set, and a click on it dispatches
  nothing.
\<close>

theorem add_rejected_button_stays_disabled:
  "(let st = run toUpperCase_ascii [AddSettled 0 False] tennis_sent in
      toasts st = [ToastError CouldNotAddSport] \<and> open st \<and> \<not> isMutating st
      \<and> inFlight (addSportMutation st) = []
      \<and> selectedSport st = ''tennis'' \<and> pendingSport st = Some ''tennis''
      \<and> addButton_disabled st \<and> step toUpperCase_ascii ClickAdd st = st
      \<and> calls (addSportMutation (step toUpperCase_ascii ClickAdd st)) = [''tennis''])"
  by code_simp

text \<open>
  C3, evaluated on the code: the deletion of baseball is confirmed and the request
  rejects. One error notification is sent; the in-flight flag is clear, yet
  \<open>deletingPending\<close> is still set, since the effect resets it only once the sport has left
  \<open>userSports\<close>, so the Delete button is still disabled and a click on it dispatches
  nothing.
\<close>

theorem delete_rejected_button_stays_disabled:
  "(let st = run toUpperCase_ascii [DeleteSettled 0 False] baseball_sent in
      toasts st = [ToastError CouldNotDeleteSport]
      \<and> \<not> isPending (deleteSportMutation st) \<and> inFlight (deleteSportMutation st) = []
      \<and> sportToDelete st = Some ''baseball'' \<and> deletingPending st
      \<and> deleteButton_disabled st \<and> step toUpperCase_ascii ClickDelete st = st
      \<and> calls (deleteSportMutation (step toUpperCase_ascii ClickDelete st)) = [''baseball''])"
  by code_simp

text \<open>
  C4: when the add request for \<open>s\<close> resolves, the key \<^verbatim>\<open>userSports\<close> is invalidated once and
  one success notification is sent, whose text is the formatted name of \<open>s\<close> followed by
  \<^verbatim>\<open> was successfully added.\<close>; the dialog, the selector and \<open>pendingSport\<close> are left as they
  are by the handler. With \<open>pendingSport\<close> set to \<open>s\<close>, the effect closes the dialog and
  resets the selector and \<open>pendingSport\<close> exactly when no add is in flight and \<open>s\<close> is not
  in \<open>availableSports\<close>, and changes nothing otherwise. So does the component: after any
  event that leaves \<open>pendingSport\<close> at \<open>s\<close>, the dialog is closed and the selector reset if
  no add is in flight and \<open>s\<close> is not in \<open>availableSports\<close>, and all three are as the
  handler left them otherwise. In every state the component reaches, an outstanding add
  request for \<open>s\<close> has \<open>pendingSport\<close> set to \<open>s\<close>; when it resolves there while \<open>s\<close> is
  still in \<open>availableSports\<close>, the dialog, the selector and \<open>pendingSport\<close> stay as they
  are, and once it has resolved and a fetch has delivered a subscription list containing
  \<open>s\<close>, the dialog is closed, the selector and \<open>pendingSport\<close> are reset, and the one
  notification and the one invalidation are what was added to the logs.
\<close>

theorem add_success_flow:
  "(i < length (inFlight (addSportMutation st)) \<and> inFlight (addSportMutation st) ! i = s \<longrightarrow>
      (let st' = handle up (AddSettled i True) st in
         invalidated st' = invalidated st @ [[''userSports'']]
         \<and> toasts st' = toasts st
               @ [ToastSuccess (formatSportName up s @ '' was successfully added.'')]
         \<and> open st' = open st \<and> selectedSport st' = selectedSport st
         \<and> pendingSport st' = pendingSport st))
   \<and> (pendingSport st = Some s \<and> s \<noteq> [] \<longrightarrow>
        addSportCard_effect st =
          (if \<not> isMutating st \<and> s \<notin> set (availableSports (allSports st) (userSports st))
           then st\<lparr>open := False, selectedSport := [], pendingSport := None\<rparr>
           else st))
   \<and> (inFlight (addSportMutation (run up evs (init all user))) = [s] \<longrightarrow>
        pendingSport (run up evs (init all user)) = Some s \<and> s \<noteq> [])
   \<and> (pendingSport (handle up ev st) = Some s \<and> s \<noteq> [] \<longrightarrow>
        (let h = handle up ev st; st' = step up ev st in
           if \<not> isMutating h \<and> s \<notin> set (availableSports (allSports h) (userSports h))
           then \<not> open st' \<and> selectedSport st' = [] \<and> pendingSport st' = None
           else open st' = open h \<and> selectedSport st' = selectedSport h
                \<and> pendingSport st' = Some s))
   \<and> (inFlight (addSportMutation (run up evs (init all user))) = [s]
        \<and> s \<in> set (availableSports (allSports (run up evs (init all user)))
                      (userSports (run up evs (init all user)))) \<longrightarrow>
        (let st0 = run up evs (init all user); st' = step up (AddSettled 0 True) st0 in
           open st' = open st0 \<and> selectedSport st' = selectedSport st0
           \<and> pendingSport st' = Some s))
   \<and> (inFlight (addSportMutation (run up evs (init all user))) = [s] \<and> s \<in> set xs \<longrightarrow>
        (let st0 = run up evs (init all user);
             st' = run up [AddSettled 0 True, UserSportsFetched xs] st0 in
           \<not> open st' \<and> selectedSport st' = [] \<and> pendingSport st' = None
           \<and> toasts st' = toasts st0
                 @ [ToastSuccess (formatSportName up s @ '' was successfully added.'')]
           \<and> invalidated st' = invalidated st0 @ [[''userSports'']]))"
proof (intro conjI impI)
  assume "i < length (inFlight (addSportMutation st)) \<and> inFlight (addSportMutation st) ! i = s"
  then show "let st' = handle up (AddSettled i True) st in
         invalidated st' = invalidated st @ [[''userSports'']]
         \<and> toasts st' = toasts st
               @ [ToastSuccess (formatSportName up s @ '' was successfully added.'')]
         \<and> open st' = open st \<and> selectedSport st' = selectedSport st
         \<and> pendingSport st' = pendingSport st"
    by (simp add: Let_def addSportMutation_onSuccess_def)
next
  assume "pendingSport st = Some s \<and> s \<noteq> []"
  then show "addSportCard_effect st =
          (if \<not> isMutating st \<and> s \<notin> set (availableSports (allSports st) (userSports st))
           then st\<lparr>open := False, selectedSport := [], pendingSport := None\<rparr>
           else st)"
    by (simp add: addSportCard_effect_def truthy_def includes_set)
next
  assume a: "inFlight (addSportMutation (run up evs (init all user))) = [s]"
  have "add_inv (run up evs (init all user))" by (rule add_inv_run)
  with a show "pendingSport (run up evs (init all user)) = Some s" by (simp add: add_inv_def)
  from \<open>add_inv (run up evs (init all user))\<close> a show "s \<noteq> []" by (simp add: add_inv_def)
next
  assume "pendingSport (handle up ev st) = Some s \<and> s \<noteq> []"
  then show "let h = handle up ev st; st' = step up ev st in
           if \<not> isMutating h \<and> s \<notin> set (availableSports (allSports h) (userSports h))
           then \<not> open st' \<and> selectedSport st' = [] \<and> pendingSport st' = None
           else open st' = open h \<and> selectedSport st' = selectedSport h
                \<and> pendingSport st' = Some s"
    by (simp add: Let_def step_def effects_pending)
next
  assume "inFlight (addSportMutation (run up evs (init all user))) = [s]
        \<and> s \<in> set (availableSports (allSports (run up evs (init all user)))
                      (userSports (run up evs (init all user))))"
  moreover have "add_inv (run up evs (init all user))" by (rule add_inv_run)
  ultimately show "let st0 = run up evs (init all user);
             st' = step up (AddSettled 0 True) st0 in
           open st' = open st0 \<and> selectedSport st' = selectedSport st0
           \<and> pendingSport st' = Some s"
    by (simp add: Let_def resolved_while_available)
next
  assume a: "inFlight (addSportMutation (run up evs (init all user))) = [s] \<and> s \<in> set xs"
  have "add_inv (run up evs (init all user))" by (rule add_inv_run)
  from resolved_and_fetched [OF this conjunct1 [OF a] conjunct2 [OF a], of up]
  show "let st0 = run up evs (init all user);
             st' = run up [AddSettled 0 True, UserSportsFetched xs] st0 in
           \<not> open st' \<and> selectedSport st' = [] \<and> pendingSport st' = None
           \<and> toasts st' = toasts st0
                 @ [ToastSuccess (formatSportName up s @ '' was successfully added.'')]
           \<and> invalidated st' = invalidated st0 @ [[''userSports'']]"
    by (simp add: Let_def)
qed

theorem add_success_flow_witness:
  "toasts (handle toUpperCase_ascii (AddSettled 0 True) tennis_sent)
     = [ToastSuccess ''Tennis was successfully added.'']
   \<and> invalidated (handle toUpperCase_ascii (AddSettled 0 True) tennis_sent)
       = [[''userSports'']]
   \<and> addSportCard_effect (step toUpperCase_ascii (AddSettled 0 True) tennis_sent)
       = step toUpperCase_ascii (AddSettled 0 True) tennis_sent
   \<and> open (step toUpperCase_ascii (AddSettled 0 True) tennis_sent)
   \<and> addSportCard_effect tennis_added
       = tennis_added\<lparr>open := False, selectedSport := [], pendingSport := None\<rparr>
   \<and> pendingSport tennis_sent = Some ''tennis''
   \<and> open (step toUpperCase_ascii (UserSportsFetched [''baseball'', ''tennis''])
             (step toUpperCase_ascii (AddSettled 0 True) tennis_sent)) = False
   \<and> open (run toUpperCase_ascii
             [AddSettled 0 True, UserSportsFetched [''baseball'', ''tennis'']] tennis_sent)
       = False
   \<and> toasts (run toUpperCase_ascii
             [AddSettled 0 True, UserSportsFetched [''baseball'', ''tennis'']] tennis_sent)
       = [ToastSuccess ''Tennis was successfully added.'']"
proof -
  let ?evs = "[AddDialogOpenChange True, SelectSport ''tennis'', ClickAdd]"
  let ?fetch = "UserSportsFetched [''baseball'', ''tennis'']"
  let ?st1 = "step toUpperCase_ascii (AddSettled 0 True) tennis_sent"
  have a: "toasts (handle toUpperCase_ascii (AddSettled 0 True) tennis_sent)
             = [ToastSuccess ''Tennis was successfully added.'']
           \<and> invalidated (handle toUpperCase_ascii (AddSettled 0 True) tennis_sent)
               = [[''userSports'']]"
    using add_success_flow [where i = 0 and st = tennis_sent and s = "''tennis''"
        and up = toUpperCase_ascii]
    by (simp add: tennis_sent_eq Let_def formatSportName_tennis)
  have b: "addSportCard_effect tennis_added
             = tennis_added\<lparr>open := False, selectedSport := [], pendingSport := None\<rparr>"
    using add_success_flow [where st = tennis_added and s = "''tennis''"]
    by (simp add: tennis_added_eq isMutating_def availableSports_filter knownSports_def)
  have c: "pendingSport tennis_sent = Some ''tennis''"
    using add_success_flow [where s = "''tennis''" and up = toUpperCase_ascii
        and evs = ?evs and all = knownSports and user = "[''baseball'']"]
    unfolding tennis_sent_def [symmetric] by (simp add: tennis_sent_eq)
  have d: "addSportCard_effect ?st1 = ?st1 \<and> open ?st1"
    by code_simp
  have h: "handle toUpperCase_ascii ?fetch ?st1 = tennis_added"
    by (simp only: tennis_added_def)
  have e: "open (step toUpperCase_ascii ?fetch ?st1) = False"
    using add_success_flow [where s = "''tennis''" and up = toUpperCase_ascii
        and ev = ?fetch and st = ?st1]
    unfolding h
    by (simp add: tennis_added_eq Let_def isMutating_def availableSports_filter
        knownSports_def)
  have f: "open (run toUpperCase_ascii [AddSettled 0 True, ?fetch] tennis_sent) = False
           \<and> toasts (run toUpperCase_ascii [AddSettled 0 True, ?fetch] tennis_sent)
               = [ToastSuccess ''Tennis was successfully added.'']"
    using add_success_flow [where s = "''tennis''" and up = toUpperCase_ascii
        and evs = ?evs and all = knownSports and user = "[''baseball'']"
        and xs = "[''baseball'', ''tennis'']"]
    unfolding tennis_sent_def [symmetric]
    by (simp add: tennis_sent_eq Let_def formatSportName_tennis)
  from a b c d e f show ?thesis by blast
qed

text \<open>
  C5: the Cancel button's handler and the dialog's \<^verbatim>\<open>onOpenChange(false)\<close> dispatch no
  delete request (the delete mutation, with its log of server calls, is unchanged), send
  no notification, invalidate nothing, leave \<open>userSports\<close> unchanged, and clear
  \<open>sportToDelete\<close> and \<open>deletingPending\<close>. The same holds for the events as a whole,
  effects included: for a dismissal always, for a click on Cancel whenever the button is
  enabled.
\<close>

theorem cancel_dispatches_nothing:
  "(let st' = cancel_onClick st in
      deleteSportMutation st' = deleteSportMutation st \<and> userSports st' = userSports st
      \<and> toasts st' = toasts st \<and> invalidated st' = invalidated st
      \<and> sportToDelete st' = None \<and> \<not> deletingPending st')
   \<and> (let st' = dialog_onOpenChange False st in
      deleteSportMutation st' = deleteSportMutation st \<and> userSports st' = userSports st
      \<and> toasts st' = toasts st \<and> invalidated st' = invalidated st
      \<and> sportToDelete st' = None \<and> \<not> deletingPending st')
   \<and> (let st' = step up (DeleteDialogOpenChange False) st in
      deleteSportMutation st' = deleteSportMutation st \<and> userSports st' = userSports st
      \<and> toasts st' = toasts st \<and> invalidated st' = invalidated st
      \<and> sportToDelete st' = None \<and> \<not> deletingPending st')
   \<and> (let st' = step up ClickCancel st in
      deleteSportMutation st' = deleteSportMutation st \<and> userSports st' = userSports st
      \<and> toasts st' = toasts st \<and> invalidated st' = invalidated st
      \<and> (\<not> cancelButton_disabled st \<longrightarrow> sportToDelete st' = None \<and> \<not> deletingPending st'))"
proof (intro conjI)
  show "let st' = cancel_onClick st in
      deleteSportMutation st' = deleteSportMutation st \<and> userSports st' = userSports st
      \<and> toasts st' = toasts st \<and> invalidated st' = invalidated st
      \<and> sportToDelete st' = None \<and> \<not> deletingPending st'"
    by (simp add: cancel_onClick_def)
  show "let st' = dialog_onOpenChange False st in
      deleteSportMutation st' = deleteSportMutation st \<and> userSports st' = userSports st
      \<and> toasts st' = toasts st \<and> invalidated st' = invalidated st
      \<and> sportToDelete st' = None \<and> \<not> deletingPending st'"
    by (simp add: dialog_onOpenChange_def)
  show "let st' = step up (DeleteDialogOpenChange False) st in
      deleteSportMutation st' = deleteSportMutation st \<and> userSports st' = userSports st
      \<and> toasts st' = toasts st \<and> invalidated st' = invalidated st
      \<and> sportToDelete st' = None \<and> \<not> deletingPending st'"
    by (simp add: step_def dialog_onOpenChange_def effects_delete_markers)
  show "let st' = step up ClickCancel st in
      deleteSportMutation st' = deleteSportMutation st \<and> userSports st' = userSports st
      \<and> toasts st' = toasts st \<and> invalidated st' = invalidated st
      \<and> (\<not> cancelButton_disabled st \<longrightarrow> sportToDelete st' = None \<and> \<not> deletingPending st')"
    by (simp add: step_def cancel_onClick_def cancelButton_disabled_def isDeleting_def
        effects_delete_markers)
qed

theorem cancel_dispatches_nothing_witness:
  "step toUpperCase_ascii ClickCancel baseball_marked = init knownSports [''baseball'']
   \<and> sportToDelete (step toUpperCase_ascii (DeleteDialogOpenChange False) baseball_sent) = None
   \<and> calls (deleteSportMutation (step toUpperCase_ascii (DeleteDialogOpenChange False) baseball_sent))
       = [''baseball'']
   \<and> calls (deleteSportMutation (step toUpperCase_ascii ClickCancel baseball_marked)) = []
   \<and> \<not> cancelButton_disabled baseball_marked"
proof -
  have a: "step toUpperCase_ascii ClickCancel baseball_marked = init knownSports [''baseball'']"
    by code_simp
  have b: "\<not> cancelButton_disabled baseball_marked"
    by (simp add: baseball_marked_eq cancelButton_disabled_def isDeleting_def)
  have c: "calls (deleteSportMutation (step toUpperCase_ascii ClickCancel baseball_marked)) = []
           \<and> sportToDelete (step toUpperCase_ascii ClickCancel baseball_marked) = None"
    using cancel_dispatches_nothing [of baseball_marked] b
    by (simp add: Let_def baseball_marked_eq idle_def)
  have d: "sportToDelete (step toUpperCase_ascii (DeleteDialogOpenChange False) baseball_sent) = None
     \<and> calls (deleteSportMutation (step toUpperCase_ascii (DeleteDialogOpenChange False) baseball_sent))
       = [''baseball'']"
    using cancel_dispatches_nothing [of baseball_sent]
    by (simp add: Let_def baseball_sent_eq)
  from a b c d show ?thesis by blast
qed




text \<open>
  C7: \<open>handleAdd\<close> leaves the state as it is, dispatching nothing, when no sport is
  selected or an add is in flight; otherwise it dispatches one add request for the
  selected sport and sets \<open>pendingSport\<close> to it, changing nothing else. In every state the
  component reaches, at most one add request is outstanding.
\<close>

theorem handleAdd_guard_single_dispatch:
  "(selectedSport st = [] \<or> isMutating st \<longrightarrow> handleAdd st = st)
   \<and> (selectedSport st \<noteq> [] \<and> \<not> isMutating st \<longrightarrow>
        handleAdd st =
          st\<lparr>addSportMutation :=
               \<lparr>isPending = True,
                inFlight = inFlight (addSportMutation st) @ [selectedSport st],
                calls = calls (addSportMutation st) @ [selectedSport st]\<rparr>,
             pendingSport := Some (selectedSport st)\<rparr>)
   \<and> length (inFlight (addSportMutation (run up evs (init all user)))) \<le> 1"
proof -
  have "add_inv (run up evs (init all user))"
    by (rule add_inv_run)
  then have "length (inFlight (addSportMutation (run up evs (init all user)))) \<le> 1"
    by (simp add: add_inv_def split: list.splits)
  then show ?thesis
    by (simp add: handleAdd_def onAdd_def mutate_def)
qed

theorem handleAdd_guard_single_dispatch_witness:
  "handleAdd (handleAdd tennis_chosen) = handleAdd tennis_chosen
   \<and> calls (addSportMutation (handleAdd tennis_chosen)) = [''tennis'']
   \<and> pendingSport (handleAdd tennis_chosen) = Some ''tennis''
   \<and> handleAdd (init knownSports [''baseball'']) = init knownSports [''baseball'']
   \<and> length (inFlight (addSportMutation tennis_sent)) \<le> 1"
  using handleAdd_guard_single_dispatch [of tennis_chosen toUpperCase_ascii "[]" "[]" "[]"]
    handleAdd_guard_single_dispatch [of "handleAdd tennis_chosen" toUpperCase_ascii "[]" "[]"
      "[]"]
    handleAdd_guard_single_dispatch [of "init knownSports [''baseball'']" toUpperCase_ascii
      "[AddDialogOpenChange True, SelectSport ''tennis'', ClickAdd]" knownSports
      "[''baseball'']"]
  unfolding tennis_sent_def [symmetric]
  by (simp add: tennis_chosen_eq isMutating_def idle_def init_def)


text \<open>
  C8: the icon lookup answers the five known sports with five different icons, and it
  throws exactly for a value outside the five: no known sport reaches the throwing branch,
  and every other value does.
\<close>

theorem getMatchingSportsIcon_closed_set:
  "distinct (map getMatchingSportsIcon knownSports)
   \<and> length knownSports = 5
   \<and> (sport \<in> set knownSports) = (\<exists>i. getMatchingSportsIcon sport = Inr i)
   \<and> (sport \<notin> set knownSports) = (getMatchingSportsIcon sport = Inl (NoIconFound sport))"
  by (simp add: knownSports_def)

theorem getMatchingSportsIcon_closed_set_witness:
  "getMatchingSportsIcon ''soccer'' = Inr PiSoccerBall
   \<and> getMatchingSportsIcon ''golf'' = Inl (NoIconFound ''golf'')"
  using getMatchingSportsIcon_closed_set [of "''soccer''"]
    getMatchingSportsIcon_closed_set [of "''golf''"]
  by (simp add: knownSports_def)

text \<open>
  C9: \<open>formatSportName\<close> has no failing case. For the empty string it returns the upper
  case of the empty string, for any other string the upper case of the first unit followed
  by the rest, unchanged. Applying it a second time changes nothing, for every string,
  provided the upper case of a single unit is not empty and starts with a unit that is its
  own upper case. With the ASCII rule alone assumed of \<^verbatim>\<open>toUpperCase\<close>, the same holds for
  the empty string and every string that starts with a unit below 128, the sport
  identifiers among them: there the result is the first unit capitalised by the ASCII
  rule, followed by the rest.
\<close>

theorem formatSportName_idempotent:
  "formatSportName up [] = up []
   \<and> formatSportName up (c # cs) = up [c] @ cs
   \<and> (settled_toUpperCase up \<longrightarrow>
        formatSportName up (formatSportName up x) = formatSportName up x)
   \<and> (ascii_toUpperCase upc \<and> (of_char a :: nat) < 128 \<longrightarrow>
        formatSportName upc [] = []
        \<and> formatSportName upc (formatSportName upc []) = formatSportName upc []
        \<and> formatSportName upc (a # as) = upper_ascii_unit a # as
        \<and> formatSportName upc (formatSportName upc (a # as)) = formatSportName upc (a # as))"
proof (intro conjI impI)
  show "formatSportName up [] = up []"
    by (rule formatSportName_Nil)
  show "formatSportName up (c # cs) = up [c] @ cs"
    by (rule formatSportName_Cons)
  show "formatSportName up (formatSportName up x) = formatSportName up x"
    if "settled_toUpperCase up"
    using that by (rule formatSportName_settled)
next
  assume h: "ascii_toUpperCase upc \<and> (of_char a :: nat) < 128"
  then have e: "upc [] = []" and u: "upc [a] = [upper_ascii_unit a]"
    by (simp_all add: ascii_toUpperCase_def)
  from h have "(of_char (upper_ascii_unit a) :: nat) < 128"
    by (simp add: upper_ascii_unit_below)
  with h have uu: "upc [upper_ascii_unit a] = [upper_ascii_unit a]"
    by (simp add: ascii_toUpperCase_def upper_ascii_unit_idem)
  from e show "formatSportName upc [] = []"
    by (simp add: formatSportName_Nil)
  from e show "formatSportName upc (formatSportName upc []) = formatSportName upc []"
    by (simp add: formatSportName_Nil)
  from u show "formatSportName upc (a # as) = upper_ascii_unit a # as"
    by (simp add: formatSportName_Cons)
  from u uu
  show "formatSportName upc (formatSportName upc (a # as)) = formatSportName upc (a # as)"
    by (simp add: formatSportName_Cons)
qed

theorem formatSportName_idempotent_witness:
  "formatSportName toUpperCase_ascii ''tennis'' = ''Tennis''
   \<and> formatSportName toUpperCase_ascii ''Tennis'' = ''Tennis''
   \<and> formatSportName toUpperCase_ascii [] = []"
proof -
  have t: "(of_char CHR ''t'' :: nat) < 128"
    by code_simp
  note T = formatSportName_idempotent [where up = toUpperCase_ascii and x = "''tennis''"
      and upc = toUpperCase_ascii and a = "CHR ''t''" and as = "''ennis''"]
  from T toUpperCase_ascii_settled
  have i: "formatSportName toUpperCase_ascii (formatSportName toUpperCase_ascii ''tennis'')
             = formatSportName toUpperCase_ascii ''tennis''"
    by blast
  from T toUpperCase_ascii_ascii t have e: "formatSportName toUpperCase_ascii [] = []"
    by blast
  from i have "formatSportName toUpperCase_ascii ''Tennis'' = ''Tennis''"
    by (simp only: formatSportName_tennis)
  with e show ?thesis
    by (simp only: formatSportName_tennis simp_thms)
qed

text \<open>
  C10: \<open>availableSports\<close> is a subsequence of \<open>allSports\<close>: the kept elements stay in their
  order, an element that occurs in \<open>userSports\<close> is dropped at each of its occurrences, and
  any other element keeps the number of its occurrences.
\<close>

theorem availableSports_order_multiplicity:
  "subseq (availableSports all user) all
   \<and> (\<forall>x. count_list (availableSports all user) x
          = (if x \<in> set user then 0 else count_list all x))"
proof
  show "subseq (availableSports all user) all"
    by (simp add: availableSports_filter)
next
  have "count_list (filter (\<lambda>s. s \<notin> set us) xs) x
          = (if x \<in> set us then 0 else count_list xs x)" for us xs and x :: string
    by (induction xs) auto
  then show "\<forall>x. count_list (availableSports all user) x
          = (if x \<in> set user then 0 else count_list all x)"
    by (simp add: availableSports_filter)
qed

theorem availableSports_order_multiplicity_witness:
  "availableSports [''golf'', ''tennis'', ''golf'', ''soccer''] [''tennis'']
     = [''golf'', ''golf'', ''soccer'']
   \<and> subseq [''golf'', ''golf'', ''soccer''] [''golf'', ''tennis'', ''golf'', ''soccer'']
   \<and> count_list [''golf'', ''golf'', ''soccer''] ''golf'' = 2"
  using availableSports_order_multiplicity
    [of "[''golf'', ''tennis'', ''golf'', ''soccer'']" "[''tennis'']"]
  by (simp add: availableSports_filter)

end
